theory Spec2Isabelle
  imports Complex_Main
begin

section \<open>Data model\<close>

text \<open>
  JavaScript numbers are modelled as real numbers: the formulas below are the exact
  real-arithmetic reading of the source expressions. The code evaluates them in
  IEEE-754 doubles, so its results agree with the model up to rounding only, and where
  rounding pushes the argument of \<^verbatim>\<open>Math.acos\<close> or \<^verbatim>\<open>Math.sqrt\<close> out of its domain the
  code yields NaN, which no comparison \<^verbatim>\<open><\<close> accepts. The theorems about the
  classifier and the selector never unfold the distance, so they hold of whatever
  numbers the distance functions return; the theorems about the distances themselves
  are stated at inputs and with margins where rounding does not change a comparison.

  A GeoJSON position is the array \<^verbatim>\<open>[lng, lat]\<close>; a route, as returned by the routing
  provider, is an object read through \<^verbatim>\<open>route.geometry.coordinates\<close>.
\<close>

type_synonym position = "real \<times> real"

record geojson =
  coordinates :: "position list"

record route =
  geometry :: geojson

text \<open>The route whose polyline is a given list of positions.\<close>

definition polyline :: "position list \<Rightarrow> route" where
  "polyline ps = \<lparr>geometry = \<lparr>coordinates = ps\<rparr>\<rparr>"

text \<open>
  \<^verbatim>\<open>src/website/src/Backend/backend.js\<close>: a zone is
  \<^verbatim>\<open>{ name, coordinates: [lat, lon], radius }\<close>; the field \<open>center\<close> is the
  source's \<^verbatim>\<open>zone.coordinates\<close>.
\<close>

record named_zone =
  name :: string
  center :: "real \<times> real"
  radius :: real

section \<open>The haversine backend (\<^verbatim>\<open>src/website/src/Backend/backend.js\<close>)\<close>


text \<open>
  \<^verbatim>\<open>Math.atan2(y, x)\<close> on real arguments: the angle of the point \<open>(x, y)\<close> in
  \<open>(-\<pi>, \<pi>]\<close>, and \<open>0\<close> at the origin.
\<close>

definition atan2 :: "real \<Rightarrow> real \<Rightarrow> real" where
  "atan2 y x =
     (if 0 < x then arctan (y / x)
      else if x < 0 then (if 0 \<le> y then arctan (y / x) + pi else arctan (y / x) - pi)
      else if 0 < y then pi / 2
      else if y < 0 then - (pi / 2)
      else 0)"

definition haversineDistance :: "real \<Rightarrow> real \<Rightarrow> real \<Rightarrow> real \<Rightarrow> real" where
  "haversineDistance lat1 lon1 lat2 lon2 =
     (let R = 6371000;
          phi1 = lat1 * pi / 180;
          phi2 = lat2 * pi / 180;
          dphi = (lat2 - lat1) * pi / 180;
          dlam = (lon2 - lon1) * pi / 180;
          a = sin (dphi / 2) * sin (dphi / 2) +
              cos phi1 * cos phi2 *
              sin (dlam / 2) * sin (dlam / 2);
          c = 2 * atan2 (sqrt a) (sqrt (1 - a))
      in R * c)"

text \<open>
  \<^verbatim>\<open>isRouteUnsafe\<close> is two nested \<^verbatim>\<open>for ... of\<close> loops with a \<^verbatim>\<open>return true\<close> in the
  inner body. The inner loop over the zones and the outer loop over the coordinates
  are one recursive function each; the zone list, a global of the source, is a
  parameter.
\<close>

fun isRouteUnsafe_zones :: "real \<Rightarrow> real \<Rightarrow> named_zone list \<Rightarrow> bool" where
  "isRouteUnsafe_zones lng lat [] = False"
| "isRouteUnsafe_zones lng lat (zone # zones) =
     (let distance = haversineDistance lat lng (fst (center zone)) (snd (center zone))
      in if distance < radius zone then True
         else isRouteUnsafe_zones lng lat zones)"

fun isRouteUnsafe_coords :: "named_zone list \<Rightarrow> position list \<Rightarrow> bool" where
  "isRouteUnsafe_coords redZones [] = False"
| "isRouteUnsafe_coords redZones (coord # coords) =
     (case coord of (lng, lat) \<Rightarrow>
        if isRouteUnsafe_zones lng lat redZones then True
        else isRouteUnsafe_coords redZones coords)"

definition isRouteUnsafe :: "named_zone list \<Rightarrow> route \<Rightarrow> bool" where
  "isRouteUnsafe redZones r = isRouteUnsafe_coords redZones (coordinates (geometry r))"

text \<open>
  The provider's JSON answer \<^verbatim>\<open>data\<close>: its \<^verbatim>\<open>code\<close> and its \<^verbatim>\<open>routes\<close> array, which
  may be absent.
\<close>

record osrm_data =
  code :: string
  routes :: "route list option"



text \<open>
  \<^verbatim>\<open>GET /api/reroute\<close>. \<^verbatim>\<open>safeRoute\<close> is
  \<^verbatim>\<open>data.routes.find(route => !isRouteUnsafe(route))\<close>; \<open>selectSafe\<close> is the selection
  that follows it (a found route is an object, hence truthy), and \<open>api_reroute\<close> the
  handler from the provider's answer on, with its guard against an answer without
  routes.
\<close>

datatype api_reroute_response =
  No_routes_found
  | Reroute_safe osrm_data
  | No_safe_alternatives_found

definition safeRoute :: "named_zone list \<Rightarrow> route list \<Rightarrow> route option" where
  "safeRoute redZones rs = List.find (\<lambda>route. \<not> isRouteUnsafe redZones route) rs"

definition selectSafe :: "named_zone list \<Rightarrow> osrm_data \<Rightarrow> route list \<Rightarrow> api_reroute_response" where
  "selectSafe redZones data rs =
     (case safeRoute redZones rs of
        Some r \<Rightarrow> Reroute_safe (data\<lparr>routes := Some [r]\<rparr>)
      | None \<Rightarrow> No_safe_alternatives_found)"

definition api_reroute :: "named_zone list \<Rightarrow> osrm_data \<Rightarrow> api_reroute_response" where
  "api_reroute redZones data =
     (if code data \<noteq> ''Ok'' then No_routes_found
      else case routes data of
        None \<Rightarrow> No_routes_found
      | Some rs \<Rightarrow>
          if length rs = 0 then No_routes_found
          else selectSafe redZones data rs)"

text \<open>
  The first matching point/zone pair under the traversal order, as the specification
  describes the verdict of an unsafe route: the first point of the polyline that some
  zone contains, with the first zone of the list that contains it. The source has no
  such function; this definition follows the specification's words, for any
  containment test \<open>inside\<close>.
\<close>

fun spec_first_violation :: "('p \<Rightarrow> 'z \<Rightarrow> bool) \<Rightarrow> 'z list \<Rightarrow> 'p list \<Rightarrow> ('p \<times> 'z) option" where
  "spec_first_violation inside zs [] = None"
| "spec_first_violation inside zs (p # ps) =
     (case List.find (inside p) zs of
        Some z \<Rightarrow> Some (p, z)
      | None \<Rightarrow> spec_first_violation inside zs ps)"

text \<open>The containment test of \<^verbatim>\<open>isRouteUnsafe\<close>, on a position \<^verbatim>\<open>[lng, lat]\<close>.\<close>

definition inside_api :: "position \<Rightarrow> named_zone \<Rightarrow> bool" where
  "inside_api p z \<longleftrightarrow>
     haversineDistance (snd p) (fst p) (fst (center z)) (snd (center z)) < radius z"

section \<open>The law-of-cosines backend (\<^verbatim>\<open>src/website/Backend/backend.js\<close>)\<close>

text \<open>
  A zone of this file is \<^verbatim>\<open>{ lat, lon, radius }\<close>; the field \<open>zradius\<close> is the
  source's \<^verbatim>\<open>zone.radius\<close>.
\<close>

record zone =
  lat :: real
  lon :: real
  zradius :: real


definition R :: real where
  "R = 6378137"

definition toRad :: "real \<Rightarrow> real" where
  "toRad deg = deg * pi / 180"

definition distance :: "real \<Rightarrow> real \<Rightarrow> real \<Rightarrow> real \<Rightarrow> real" where
  "distance lat1 lon1 lat2 lon2 =
     (let phi1 = toRad lat1; phi2 = toRad lat2;
          dlam = toRad (lon2 - lon1)
      in arccos (sin phi1 * sin phi2 +
           cos phi1 * cos phi2 * cos dlam) * R)"

text \<open>\<^verbatim>\<open>Array.prototype.some\<close> is \<^const>\<open>list_ex\<close>.\<close>

definition inRedZone :: "zone list \<Rightarrow> real \<Rightarrow> real \<Rightarrow> bool" where
  "inRedZone redZones la lo =
     list_ex (\<lambda>z. distance la lo (lat z) (lon z) < zradius z) redZones"

definition routeUnsafe :: "zone list \<Rightarrow> route \<Rightarrow> bool" where
  "routeUnsafe redZones r =
     list_ex (\<lambda>(lo, la). inRedZone redZones la lo) (coordinates (geometry r))"



text \<open>The containment test of \<^verbatim>\<open>inRedZone\<close>, on a position \<^verbatim>\<open>[lon, lat]\<close>.\<close>

definition inside_core :: "position \<Rightarrow> zone \<Rightarrow> bool" where
  "inside_core p z \<longleftrightarrow> distance (snd p) (fst p) (lat z) (lon z) < zradius z"

text \<open>Reversing the traversal order of a route's polyline.\<close>

definition reversed :: "route \<Rightarrow> route" where
  "reversed r = r\<lparr>geometry := (geometry r)\<lparr>coordinates := rev (coordinates (geometry r))\<rparr>\<rparr>"

section \<open>GeoPoints of the specification\<close>

text \<open>
  A GeoPoint, in the specification's words: a latitude in \<open>[-90, 90]\<close> and a longitude
  in \<open>[-180, 180]\<close>, in decimal degrees. The source has no such test; this definition
  follows the specification.
\<close>

definition spec_GeoPoint :: "real \<Rightarrow> real \<Rightarrow> bool" where
  "spec_GeoPoint la lo \<longleftrightarrow> - 90 \<le> la \<and> la \<le> 90 \<and> - 180 \<le> lo \<and> lo \<le> 180"

section \<open>Example data\<close>

text \<open>
  Two zones on the equator, one degree of longitude apart, in the shape of each
  backend, and three one-point routes: at the first centre, at the second centre, and
  one degree further east.
\<close>

definition zone_origin :: named_zone where
  "zone_origin = \<lparr>name = ''origin'', center = (0, 0), radius = 5000\<rparr>"

definition zone_east :: named_zone where
  "zone_east = \<lparr>name = ''east'', center = (0, 1), radius = 4000\<rparr>"

definition czone_origin :: zone where
  "czone_origin = \<lparr>lat = 0, lon = 0, zradius = 700\<rparr>"

definition czone_east :: zone where
  "czone_east = \<lparr>lat = 0, lon = 1, zradius = 500\<rparr>"

definition route_origin :: route where
  "route_origin = polyline [(0, 0)]"

definition route_east :: route where
  "route_east = polyline [(1, 0)]"

definition route_far :: route where
  "route_far = polyline [(2, 0)]"

text \<open>
  A zone in the shape of each backend whose radius is exactly the distance from its
  centre to the point one degree east of it, and a provider answer.
\<close>

definition zone_boundary :: named_zone where
  "zone_boundary = \<lparr>name = ''boundary'', center = (0, 0), radius = 6371000 * (pi / 180)\<rparr>"

definition czone_boundary :: zone where
  "czone_boundary = \<lparr>lat = 0, lon = 0, zradius = 6378137 * (pi / 180)\<rparr>"

definition answer :: "route list \<Rightarrow> osrm_data" where
  "answer rs = \<lparr>code = ''Ok'', routes = Some rs\<rparr>"

section \<open>The loops as quantifiers\<close>

lemma isRouteUnsafe_zones_iff:
  "isRouteUnsafe_zones lo la zs \<longleftrightarrow>
     (\<exists>z \<in> set zs. haversineDistance la lo (fst (center z)) (snd (center z)) < radius z)"
  by (induction zs) (simp_all add: Let_def)

lemma isRouteUnsafe_coords_iff:
  "isRouteUnsafe_coords zs cs \<longleftrightarrow>
     (\<exists>(lo, la) \<in> set cs. isRouteUnsafe_zones lo la zs)"
  by (induction cs) (auto split: prod.splits)

lemma routeUnsafe_iff:
  "routeUnsafe zs r \<longleftrightarrow>
     (\<exists>(lo, la) \<in> set (coordinates (geometry r)). inRedZone zs la lo)"
  by (simp add: routeUnsafe_def list_ex_iff)

lemma inRedZone_iff:
  "inRedZone zs la lo \<longleftrightarrow> (\<exists>z \<in> set zs. distance la lo (lat z) (lon z) < zradius z)"
  by (simp add: inRedZone_def list_ex_iff)

section \<open>The two distance formulas in real arithmetic\<close>

text \<open>
  Both formulas measure the same central angle: the haversine term \<open>a\<close> satisfies
  \<open>1 - 2 a = sin \<phi>\<^sub>1 sin \<phi>\<^sub>2 + cos \<phi>\<^sub>1 cos \<phi>\<^sub>2 cos \<Delta>\<lambda>\<close>, it lies in \<open>[0, 1]\<close>, and
  \<open>2 atan2 (\<surd>a) (\<surd>(1 - a))\<close> is the angle in \<open>[0, \<pi>]\<close> with that cosine.

  The lemmas of this section are facts of the exact formulas. They serve to evaluate
  the model at the example inputs, where the doubles of the code give the same
  comparisons; they are not statements about the doubles themselves.
\<close>

lemma atan2_unit:
  assumes "0 \<le> y" "0 \<le> x" "x\<^sup>2 + y\<^sup>2 = 1"
  shows "0 \<le> atan2 y x \<and> atan2 y x \<le> pi / 2 \<and> cos (2 * atan2 y x) = x\<^sup>2 - y\<^sup>2"
proof (cases "0 < x")
  case True
  let ?t = "y / x"
  have t0: "0 \<le> ?t" using assms True by simp
  have a: "atan2 y x = arctan ?t" using True by (simp add: atan2_def)
  have lo: "0 \<le> arctan ?t" using t0 by (simp only: zero_le_arctan_iff)
  have hi: "arctan ?t \<le> pi / 2" using arctan_ubound [of ?t] by simp
  have "1 + ?t\<^sup>2 = (x\<^sup>2 + y\<^sup>2) / x\<^sup>2"
    using True by (simp add: power_divide add_divide_distrib)
  then have "1 + ?t\<^sup>2 = 1 / x\<^sup>2" using assms(3) by simp
  then have "(cos (arctan ?t))\<^sup>2 = x\<^sup>2"
    using True by (simp add: cos_arctan power_divide)
  then have "cos (2 * arctan ?t) = 2 * x\<^sup>2 - 1"
    by (simp add: cos_double_cos)
  also have "\<dots> = x\<^sup>2 - y\<^sup>2" using assms(3) by simp
  finally show ?thesis using a lo hi by simp
next
  case False
  then have x0: "x = 0" using assms(2) by simp
  then have "y\<^sup>2 = 1" using assms(3) by simp
  then have y1: "y = 1" using assms(1) by (simp add: power2_eq_1_iff)
  show ?thesis using x0 y1 by (simp add: atan2_def)
qed

lemma central_angle_cos:
  fixes p1 p2 dl :: real
  shows "sin p1 * sin p2 + cos p1 * cos p2 * cos dl =
         1 - 2 * (sin ((p2 - p1) / 2) * sin ((p2 - p1) / 2) +
                  cos p1 * cos p2 * sin (dl / 2) * sin (dl / 2))"
proof -
  have a: "cos dl = 1 - 2 * (sin (dl / 2))\<^sup>2"
    using cos_double_sin [of "dl / 2"] by simp
  have "2 * ((p2 - p1) / 2) = p2 - p1" by simp
  then have b: "cos (p2 - p1) = 1 - 2 * (sin ((p2 - p1) / 2))\<^sup>2"
    using cos_double_sin [of "(p2 - p1) / 2"] by (simp only:)
  have c: "cos (p2 - p1) = cos p2 * cos p1 + sin p2 * sin p1"
    by (rule cos_diff)
  have "sin p1 * sin p2 + cos p1 * cos p2 * cos dl =
        cos (p2 - p1) - 2 * (cos p1 * cos p2 * (sin (dl / 2))\<^sup>2)"
    unfolding a c by (simp add: algebra_simps)
  also have "\<dots> = 1 - 2 * ((sin ((p2 - p1) / 2))\<^sup>2 + cos p1 * cos p2 * (sin (dl / 2))\<^sup>2)"
    unfolding b by (simp add: algebra_simps)
  finally show ?thesis by (simp add: power2_eq_square algebra_simps)
qed

lemma central_angle_cos_bounds:
  fixes p1 p2 dl :: real
  shows "- 1 \<le> sin p1 * sin p2 + cos p1 * cos p2 * cos dl"
    and "sin p1 * sin p2 + cos p1 * cos p2 * cos dl \<le> 1"
proof -
  let ?k = "cos dl"
  let ?A = "cos (p1 - p2)"
  let ?B = "cos (p1 + p2)"
  have e: "sin p1 * sin p2 + cos p1 * cos p2 * ?k = ((1 + ?k) * ?A - (1 - ?k) * ?B) / 2"
    by (simp add: cos_diff cos_add algebra_simps)
  have k1: "0 \<le> 1 + ?k" using cos_ge_minus_one [of dl] by linarith
  have k2: "0 \<le> 1 - ?k" using cos_le_one [of dl] by linarith
  have A1: "(1 + ?k) * ?A \<le> (1 + ?k) * 1" by (rule mult_left_mono [OF cos_le_one k1])
  have A2: "(1 + ?k) * (- 1) \<le> (1 + ?k) * ?A" by (rule mult_left_mono [OF cos_ge_minus_one k1])
  have B1: "(1 - ?k) * ?B \<le> (1 - ?k) * 1" by (rule mult_left_mono [OF cos_le_one k2])
  have B2: "(1 - ?k) * (- 1) \<le> (1 - ?k) * ?B" by (rule mult_left_mono [OF cos_ge_minus_one k2])
  show "- 1 \<le> sin p1 * sin p2 + cos p1 * cos p2 * cos dl"
    unfolding e using A2 B1 by simp
  show "sin p1 * sin p2 + cos p1 * cos p2 * cos dl \<le> 1"
    unfolding e using A1 B2 by simp
qed

lemma haversine_as_arccos:
  "haversineDistance la1 lo1 la2 lo2 =
     6371000 * arccos (sin (la1 * pi / 180) * sin (la2 * pi / 180) +
       cos (la1 * pi / 180) * cos (la2 * pi / 180) * cos ((lo2 - lo1) * pi / 180))"
proof -
  let ?p1 = "la1 * pi / 180" and ?p2 = "la2 * pi / 180" and ?dl = "(lo2 - lo1) * pi / 180"
  let ?dp = "(la2 - la1) * pi / 180"
  let ?a = "sin (?dp / 2) * sin (?dp / 2) + cos ?p1 * cos ?p2 * sin (?dl / 2) * sin (?dl / 2)"
  let ?C = "sin ?p1 * sin ?p2 + cos ?p1 * cos ?p2 * cos ?dl"
  have dp: "?dp = ?p2 - ?p1" by (simp add: algebra_simps diff_divide_distrib)
  have C: "?C = 1 - 2 * ?a"
    unfolding dp by (rule central_angle_cos)
  have a0: "0 \<le> ?a" using central_angle_cos_bounds(2) [of ?p1 ?p2 ?dl] unfolding C by simp
  have a1: "?a \<le> 1" using central_angle_cos_bounds(1) [of ?p1 ?p2 ?dl] unfolding C by simp
  have u: "(sqrt (1 - ?a))\<^sup>2 + (sqrt ?a)\<^sup>2 = 1" using a0 a1 by simp
  have at: "0 \<le> atan2 (sqrt ?a) (sqrt (1 - ?a)) \<and> atan2 (sqrt ?a) (sqrt (1 - ?a)) \<le> pi / 2 \<and>
        cos (2 * atan2 (sqrt ?a) (sqrt (1 - ?a))) = (sqrt (1 - ?a))\<^sup>2 - (sqrt ?a)\<^sup>2"
    using a0 a1 by (intro atan2_unit u) simp_all
  let ?c = "2 * atan2 (sqrt ?a) (sqrt (1 - ?a))"
  have cc: "cos ?c = ?C" using at a0 a1 unfolding C by simp
  have "arccos ?C = ?c"
    unfolding cc [symmetric] using at by (intro arccos_cos) simp_all
  then show ?thesis
    by (simp add: haversineDistance_def Let_def)
qed

lemma haversine_distance_ratio:
  "distance la1 lo1 la2 lo2 * 6371000 = haversineDistance la1 lo1 la2 lo2 * 6378137"
  by (simp add: haversine_as_arccos distance_def toRad_def Let_def R_def)


lemma sin_cos_sq_one: "sin (x::real) * sin x + cos x * cos x = 1"
  using sin_cos_squared_add3 [of x] by (simp add: add.commute)

lemma distance_as_arccos:
  "distance la1 lo1 la2 lo2 =
     6378137 * arccos (sin (la1 * pi / 180) * sin (la2 * pi / 180) +
       cos (la1 * pi / 180) * cos (la2 * pi / 180) * cos ((lo2 - lo1) * pi / 180))"
  by (simp add: distance_def toRad_def Let_def R_def)

lemma haversineDistance_self: "haversineDistance la lo la lo = 0"
  by (simp add: haversine_as_arccos sin_cos_sq_one)

lemma distance_equator_self: "distance 0 lo 0 lo = 0"
  by (simp add: distance_as_arccos)

lemma arccos_cos_degrees:
  fixes d :: real
  assumes "\<bar>d\<bar> \<le> 180"
  shows "arccos (cos (d * pi / 180)) = \<bar>d\<bar> * pi / 180"
proof -
  have c: "cos (d * pi / 180) = cos (\<bar>d\<bar> * pi / 180)"
    by (cases "0 \<le> d") (simp_all add: abs_if)
  have "\<bar>d\<bar> * pi \<le> 180 * pi" using assms by (intro mult_right_mono) simp_all
  then have "\<bar>d\<bar> * pi / 180 \<le> pi" by simp
  then show ?thesis unfolding c by (intro arccos_cos) simp_all
qed

lemma haversineDistance_equator:
  "\<bar>lo2 - lo1\<bar> \<le> 180 \<Longrightarrow> haversineDistance 0 lo1 0 lo2 = 6371000 * (\<bar>lo2 - lo1\<bar> * pi / 180)"
  by (simp add: haversine_as_arccos arccos_cos_degrees)

lemma distance_equator:
  "\<bar>lo2 - lo1\<bar> \<le> 180 \<Longrightarrow> distance 0 lo1 0 lo2 = 6378137 * (\<bar>lo2 - lo1\<bar> * pi / 180)"
  by (simp add: distance_as_arccos arccos_cos_degrees)

lemma haversineDistance_equator_far:
  assumes "1 \<le> \<bar>lo2 - lo1\<bar>" "\<bar>lo2 - lo1\<bar> \<le> 180" "r \<le> 50000"
  shows "\<not> haversineDistance 0 lo1 0 lo2 < r"
proof -
  have "2 * 1 \<le> pi * \<bar>lo2 - lo1\<bar>"
    using pi_ge_two assms(1) by (intro mult_mono) simp_all
  then show ?thesis
    using assms(3) by (simp add: haversineDistance_equator [OF assms(2)] mult.commute)
qed

lemma distance_equator_far:
  assumes "1 \<le> \<bar>lo2 - lo1\<bar>" "\<bar>lo2 - lo1\<bar> \<le> 180" "r \<le> 50000"
  shows "\<not> distance 0 lo1 0 lo2 < r"
proof -
  have "2 * 1 \<le> pi * \<bar>lo2 - lo1\<bar>"
    using pi_ge_two assms(1) by (intro mult_mono) simp_all
  then show ?thesis
    using assms(3) by (simp add: distance_equator [OF assms(2)] mult.commute)
qed

section \<open>The example routes, classified\<close>

lemmas example_data =
  zone_origin_def zone_east_def czone_origin_def czone_east_def polyline_def
  route_origin_def route_east_def route_far_def zone_boundary_def czone_boundary_def


lemma route_origin_unsafe_api: "isRouteUnsafe [zone_origin, zone_east] route_origin"
  by (simp add: isRouteUnsafe_def example_data haversineDistance_self)

lemma route_east_unsafe_api: "isRouteUnsafe [zone_origin, zone_east] route_east"
  by (simp add: isRouteUnsafe_def example_data haversineDistance_self haversineDistance_equator_far)

lemma route_far_safe_api: "\<not> isRouteUnsafe [zone_origin, zone_east] route_far"
  by (simp add: isRouteUnsafe_def example_data haversineDistance_self haversineDistance_equator_far)

lemma route_origin_unsafe_core: "routeUnsafe [czone_origin, czone_east] route_origin"
  by (simp add: routeUnsafe_def inRedZone_def example_data distance_equator_self)

lemma route_east_unsafe_core: "routeUnsafe [czone_origin, czone_east] route_east"
  by (simp add: routeUnsafe_def inRedZone_def example_data distance_equator_self distance_equator_far)

lemma route_far_safe_core: "\<not> routeUnsafe [czone_origin, czone_east] route_far"
  by (simp add: routeUnsafe_def inRedZone_def example_data distance_equator_self distance_equator_far)



section \<open>The first violation\<close>

lemma find_Some_decomp:
  "List.find P xs = Some x \<Longrightarrow>
     \<exists>pre post. xs = pre @ x # post \<and> P x \<and> (\<forall>y \<in> set pre. \<not> P y)"
proof (induction xs)
  case Nil
  then show ?case by simp
next
  case (Cons a xs)
  show ?case
  proof (cases "P a")
    case True
    then have "x = a" using Cons.prems by simp
    then have "a # xs = [] @ x # xs \<and> P x \<and> (\<forall>y \<in> set []. \<not> P y)"
      using True by simp
    then show ?thesis by blast
  next
    case False
    then have "List.find P xs = Some x" using Cons.prems by simp
    then obtain pre post where "xs = pre @ x # post" "P x" "\<forall>y \<in> set pre. \<not> P y"
      using Cons.IH by blast
    then have "a # xs = (a # pre) @ x # post \<and> P x \<and> (\<forall>y \<in> set (a # pre). \<not> P y)"
      using False by simp
    then show ?thesis by blast
  qed
qed

lemma spec_first_violation_None:
  "\<forall>p \<in> set ps. \<forall>z \<in> set zs. \<not> inside p z \<Longrightarrow> spec_first_violation inside zs ps = None"
  by (induction ps) (simp_all add: find_None_iff split: option.splits)

lemma spec_first_violation_Some:
  "\<exists>p \<in> set ps. \<exists>z \<in> set zs. inside p z \<Longrightarrow>
     \<exists>p z pre post zpre zpost.
       spec_first_violation inside zs ps = Some (p, z) \<and>
       ps = pre @ p # post \<and> zs = zpre @ z # zpost \<and> inside p z \<and>
       (\<forall>q \<in> set pre. \<forall>z' \<in> set zs. \<not> inside q z') \<and>
       (\<forall>z' \<in> set zpre. \<not> inside p z')"
proof (induction ps)
  case Nil
  then show ?case by simp
next
  case (Cons a ps)
  show ?case
  proof (cases "List.find (inside a) zs")
    case (Some z)
    then obtain zpre zpost where z: "zs = zpre @ z # zpost" "inside a z"
        "\<forall>z' \<in> set zpre. \<not> inside a z'"
      using find_Some_decomp [of "inside a" zs z] by blast
    have "spec_first_violation inside zs (a # ps) = Some (a, z) \<and>
        a # ps = [] @ a # ps \<and> zs = zpre @ z # zpost \<and> inside a z \<and>
        (\<forall>q \<in> set []. \<forall>z' \<in> set zs. \<not> inside q z') \<and>
        (\<forall>z' \<in> set zpre. \<not> inside a z')"
      using Some z by simp
    then show ?thesis by blast
  next
    case None
    then have na: "\<forall>z' \<in> set zs. \<not> inside a z'"
      by (simp add: find_None_iff)
    then have "\<exists>p \<in> set ps. \<exists>z \<in> set zs. inside p z"
      using Cons.prems by auto
    then obtain p z pre post zpre zpost where
        h: "spec_first_violation inside zs ps = Some (p, z)"
        "ps = pre @ p # post" "zs = zpre @ z # zpost" "inside p z"
        "\<forall>q \<in> set pre. \<forall>z' \<in> set zs. \<not> inside q z'"
        "\<forall>z' \<in> set zpre. \<not> inside p z'"
      using Cons.IH by blast
    have "spec_first_violation inside zs (a # ps) = Some (p, z) \<and>
        a # ps = (a # pre) @ p # post \<and> zs = zpre @ z # zpost \<and> inside p z \<and>
        (\<forall>q \<in> set (a # pre). \<forall>z' \<in> set zs. \<not> inside q z') \<and>
        (\<forall>z' \<in> set zpre. \<not> inside p z')"
      using None h na by simp
    then show ?thesis by blast
  qed
qed

lemma isRouteUnsafe_inside:
  "isRouteUnsafe zs r \<longleftrightarrow> (\<exists>p \<in> set (coordinates (geometry r)). \<exists>z \<in> set zs. inside_api p z)"
  by (simp add: isRouteUnsafe_def isRouteUnsafe_coords_iff isRouteUnsafe_zones_iff inside_api_def
      case_prod_beta)

lemma routeUnsafe_inside:
  "routeUnsafe ws r \<longleftrightarrow> (\<exists>p \<in> set (coordinates (geometry r)). \<exists>w \<in> set ws. inside_core p w)"
  by (simp add: routeUnsafe_iff inRedZone_iff inside_core_def case_prod_beta)

section \<open>The selector and the reroute handler\<close>

lemma api_reroute_selects:
  "code data = ''Ok'' \<Longrightarrow> routes data = Some rs \<Longrightarrow> rs \<noteq> [] \<Longrightarrow>
     api_reroute zs data = selectSafe zs data rs"
  by (simp add: api_reroute_def)

lemma api_reroute_no_routes:
  "routes data = Some [] \<or> routes data = None \<or> code data \<noteq> ''Ok'' \<Longrightarrow>
     api_reroute zs data = No_routes_found"
  by (auto simp add: api_reroute_def split: option.splits)

lemma safeRoute_Some_iff:
  "safeRoute zs rs = Some r \<longleftrightarrow>
     (\<exists>i<length rs. r = rs ! i \<and> \<not> isRouteUnsafe zs (rs ! i) \<and>
        (\<forall>j<i. isRouteUnsafe zs (rs ! j)))"
  by (auto simp add: safeRoute_def find_Some_iff)

lemma safeRoute_None_iff:
  "safeRoute zs rs = None \<longleftrightarrow> (\<forall>r \<in> set rs. isRouteUnsafe zs r)"
  by (auto simp add: safeRoute_def find_None_iff)

section \<open>The route safety classifier\<close>

text \<open>
  Claim C1. Each classifier answers UNSAFE exactly when some vertex of the polyline is
  at a distance from the centre of some zone that is less than that zone's radius, and
  SAFE otherwise: \<^verbatim>\<open>isRouteUnsafe\<close> with the haversine distance, \<^verbatim>\<open>routeUnsafe\<close> with
  the law-of-cosines distance.
\<close>

theorem classifier_unsafe_iff:
  "(isRouteUnsafe zs r \<longleftrightarrow>
      (\<exists>(lo, la) \<in> set (coordinates (geometry r)). \<exists>z \<in> set zs.
         haversineDistance la lo (fst (center z)) (snd (center z)) < radius z)) \<and>
   (routeUnsafe ws r \<longleftrightarrow>
      (\<exists>(lo, la) \<in> set (coordinates (geometry r)). \<exists>z \<in> set ws.
         distance la lo (lat z) (lon z) < zradius z))"
  by (simp add: isRouteUnsafe_def isRouteUnsafe_coords_iff isRouteUnsafe_zones_iff
      routeUnsafe_iff inRedZone_iff)

theorem classifier_unsafe_iff_witness:
  "isRouteUnsafe [zone_origin, zone_east] route_east \<and>
   \<not> isRouteUnsafe [zone_origin, zone_east] route_far \<and>
   routeUnsafe [czone_origin, czone_east] route_east \<and>
   \<not> routeUnsafe [czone_origin, czone_east] route_far"
proof -
  have a: "\<exists>(lo, la) \<in> set (coordinates (geometry route_east)). \<exists>z \<in> set [zone_origin, zone_east].
      haversineDistance la lo (fst (center z)) (snd (center z)) < radius z"
    by (simp add: example_data haversineDistance_self)
  have b: "\<not> (\<exists>(lo, la) \<in> set (coordinates (geometry route_far)). \<exists>z \<in> set [zone_origin, zone_east].
      haversineDistance la lo (fst (center z)) (snd (center z)) < radius z)"
    by (simp add: example_data haversineDistance_equator_far)
  have c: "\<exists>(lo, la) \<in> set (coordinates (geometry route_east)). \<exists>z \<in> set [czone_origin, czone_east].
      distance la lo (lat z) (lon z) < zradius z"
    by (simp add: example_data distance_equator_self)
  have d: "\<not> (\<exists>(lo, la) \<in> set (coordinates (geometry route_far)). \<exists>z \<in> set [czone_origin, czone_east].
      distance la lo (lat z) (lon z) < zradius z)"
    by (simp add: example_data distance_equator_far)
  show ?thesis
    using a b c d
      classifier_unsafe_iff [of "[zone_origin, zone_east]" route_east "[czone_origin, czone_east]"]
      classifier_unsafe_iff [of "[zone_origin, zone_east]" route_far "[czone_origin, czone_east]"]
    by blast
qed

text \<open>
  Claim C2. The containment test is the strict comparison of the distance with the
  radius, in the inner loop of \<^verbatim>\<open>isRouteUnsafe\<close> and in \<^verbatim>\<open>inRedZone\<close> alike. A point at
  a distance equal to the radius is not contained, and a route all of whose vertices
  are on or outside the boundary of every zone is classified SAFE.
\<close>

theorem containment_strict:
  "(isRouteUnsafe_zones lo la [z] \<longleftrightarrow>
      haversineDistance la lo (fst (center z)) (snd (center z)) < radius z) \<and>
   (inRedZone [w] la lo \<longleftrightarrow> distance la lo (lat w) (lon w) < zradius w) \<and>
   (haversineDistance la lo (fst (center z)) (snd (center z)) = radius z \<longrightarrow>
      \<not> isRouteUnsafe_zones lo la [z]) \<and>
   (distance la lo (lat w) (lon w) = zradius w \<longrightarrow> \<not> inRedZone [w] la lo) \<and>
   ((\<forall>(lo, la) \<in> set (coordinates (geometry r)). \<forall>z \<in> set zs.
        radius z \<le> haversineDistance la lo (fst (center z)) (snd (center z))) \<longrightarrow>
      \<not> isRouteUnsafe zs r) \<and>
   ((\<forall>(lo, la) \<in> set (coordinates (geometry r)). \<forall>w \<in> set ws.
        zradius w \<le> distance la lo (lat w) (lon w)) \<longrightarrow>
      \<not> routeUnsafe ws r)"
  by (simp add: isRouteUnsafe_def isRouteUnsafe_coords_iff isRouteUnsafe_zones_iff
      routeUnsafe_iff inRedZone_iff) fastforce

theorem containment_strict_witness:
  "haversineDistance 0 1 (fst (center zone_boundary)) (snd (center zone_boundary)) = radius zone_boundary \<and>
   \<not> isRouteUnsafe_zones 1 0 [zone_boundary] \<and>
   distance 0 1 (lat czone_boundary) (lon czone_boundary) = zradius czone_boundary \<and>
   \<not> inRedZone [czone_boundary] 0 1 \<and>
   \<not> isRouteUnsafe [zone_boundary] route_east \<and>
   \<not> routeUnsafe [czone_boundary] route_east"
proof -
  have a: "haversineDistance 0 1 (fst (center zone_boundary)) (snd (center zone_boundary)) = radius zone_boundary"
    by (simp add: example_data haversineDistance_equator)
  have b: "distance 0 1 (lat czone_boundary) (lon czone_boundary) = zradius czone_boundary"
    by (simp add: example_data distance_equator)
  have c: "\<forall>(lo, la) \<in> set (coordinates (geometry route_east)). \<forall>z \<in> set [zone_boundary].
      radius z \<le> haversineDistance la lo (fst (center z)) (snd (center z))"
    by (simp add: example_data haversineDistance_equator)
  have d: "\<forall>(lo, la) \<in> set (coordinates (geometry route_east)). \<forall>w \<in> set [czone_boundary].
      zradius w \<le> distance la lo (lat w) (lon w)"
    by (simp add: example_data distance_equator)
  show ?thesis
    using a b c d
      containment_strict [where lo = 1 and la = 0 and z = zone_boundary and w = czone_boundary
        and r = route_east and zs = "[zone_boundary]" and ws = "[czone_boundary]"]
    by blast
qed

text \<open>
  Claim C6. Reversing the order of the polyline's points does not change the verdict
  of either classifier.
\<close>

theorem classifier_reversal_invariant:
  "isRouteUnsafe zs (reversed r) = isRouteUnsafe zs r \<and>
   routeUnsafe ws (reversed r) = routeUnsafe ws r"
  by (simp add: isRouteUnsafe_def isRouteUnsafe_coords_iff routeUnsafe_iff reversed_def)

text \<open>
  Claim C10. Each classifier is antitone in the zones: a route that is SAFE against a
  list of zones is SAFE against every list whose zones all occur in it.
\<close>

theorem classifier_antitone_in_zones:
  "(set zs \<subseteq> set zs' \<longrightarrow> \<not> isRouteUnsafe zs' r \<longrightarrow> \<not> isRouteUnsafe zs r) \<and>
   (set ws \<subseteq> set ws' \<longrightarrow> \<not> routeUnsafe ws' r \<longrightarrow> \<not> routeUnsafe ws r)"
  by (auto simp add: isRouteUnsafe_def isRouteUnsafe_coords_iff isRouteUnsafe_zones_iff
      routeUnsafe_iff inRedZone_iff)

theorem classifier_antitone_in_zones_witness:
  "set [zone_east] \<subseteq> set [zone_origin, zone_east] \<and>
   \<not> isRouteUnsafe [zone_origin, zone_east] route_far \<and>
   \<not> isRouteUnsafe [zone_east] route_far \<and>
   set [czone_east] \<subseteq> set [czone_origin, czone_east] \<and>
   \<not> routeUnsafe [czone_origin, czone_east] route_far \<and>
   \<not> routeUnsafe [czone_east] route_far"
proof -
  have s: "set [zone_east] \<subseteq> set [zone_origin, zone_east]" by simp
  have t: "set [czone_east] \<subseteq> set [czone_origin, czone_east]" by simp
  show ?thesis
    using s t route_far_safe_api route_far_safe_core
      classifier_antitone_in_zones [of "[zone_east]" "[zone_origin, zone_east]" route_far
        "[czone_east]" "[czone_origin, czone_east]"]
    by blast
qed

section \<open>The alternative route selector\<close>

text \<open>
  Claim C3. The selector answers with a route exactly when that route is the first
  candidate, in the provider's order, that \<^verbatim>\<open>isRouteUnsafe\<close> does not flag: the route
  is SAFE, every candidate before it is UNSAFE, and the answer is the provider's data
  with that single route. Whenever some candidate is SAFE, a route is returned.
\<close>

theorem selector_first_safe:
  "(selectSafe zs data rs = Reroute_safe d \<longleftrightarrow>
      (\<exists>i<length rs. d = data\<lparr>routes := Some [rs ! i]\<rparr> \<and>
         \<not> isRouteUnsafe zs (rs ! i) \<and> (\<forall>j<i. isRouteUnsafe zs (rs ! j)))) \<and>
   ((\<exists>r \<in> set rs. \<not> isRouteUnsafe zs r) \<longrightarrow> (\<exists>d'. selectSafe zs data rs = Reroute_safe d'))"
proof (cases "safeRoute zs rs")
  case None
  then have all: "\<forall>r \<in> set rs. isRouteUnsafe zs r"
    by (simp only: safeRoute_None_iff)
  have sel: "selectSafe zs data rs = No_safe_alternatives_found"
    using None by (simp add: selectSafe_def)
  have no: "\<not> (\<exists>i<length rs. d = data\<lparr>routes := Some [rs ! i]\<rparr> \<and>
         \<not> isRouteUnsafe zs (rs ! i) \<and> (\<forall>j<i. isRouteUnsafe zs (rs ! j)))"
    using all nth_mem by blast
  show ?thesis
    unfolding sel using no all by simp
next
  case (Some r)
  then obtain i where i: "i < length rs" "r = rs ! i" "\<not> isRouteUnsafe zs (rs ! i)"
      "\<forall>j<i. isRouteUnsafe zs (rs ! j)"
    unfolding safeRoute_Some_iff by blast
  have sel: "selectSafe zs data rs = Reroute_safe (data\<lparr>routes := Some [rs ! i]\<rparr>)"
    using Some i(2) by (simp add: selectSafe_def)
  have uniq: "k = i" if "k < length rs" "\<not> isRouteUnsafe zs (rs ! k)"
      "\<forall>j<k. isRouteUnsafe zs (rs ! j)" for k
  proof (rule ccontr)
    assume "k \<noteq> i"
    then consider "k < i" | "i < k" by linarith
    then show False
    proof cases
      case 1
      then show ?thesis using i(4) that(2) by blast
    next
      case 2
      then show ?thesis using that(3) i(3) by blast
    qed
  qed
  have fwd: "\<exists>i<length rs. d = data\<lparr>routes := Some [rs ! i]\<rparr> \<and>
         \<not> isRouteUnsafe zs (rs ! i) \<and> (\<forall>j<i. isRouteUnsafe zs (rs ! j))"
    if "Reroute_safe (data\<lparr>routes := Some [rs ! i]\<rparr>) = Reroute_safe d"
    using that i by blast
  have bwd: "Reroute_safe (data\<lparr>routes := Some [rs ! i]\<rparr>) = Reroute_safe d"
    if "\<exists>k<length rs. d = data\<lparr>routes := Some [rs ! k]\<rparr> \<and>
         \<not> isRouteUnsafe zs (rs ! k) \<and> (\<forall>j<k. isRouteUnsafe zs (rs ! j))"
  proof -
    from that obtain k where k: "k < length rs" "d = data\<lparr>routes := Some [rs ! k]\<rparr>"
        "\<not> isRouteUnsafe zs (rs ! k)" "\<forall>j<k. isRouteUnsafe zs (rs ! j)"
      by blast
    have "k = i" using uniq k(1,3,4) by blast
    then show ?thesis using k(2) by simp
  qed
  show ?thesis
    unfolding sel using fwd bwd by blast
qed

theorem selector_first_safe_witness:
  "isRouteUnsafe [zone_origin, zone_east] route_origin \<and>
   isRouteUnsafe [zone_origin, zone_east] route_east \<and>
   \<not> isRouteUnsafe [zone_origin, zone_east] route_far \<and>
   selectSafe [zone_origin, zone_east] (answer [route_origin, route_east, route_far])
       [route_origin, route_east, route_far] =
     Reroute_safe (answer [route_far])"
proof -
  let ?rs = "[route_origin, route_east, route_far]"
  have "\<forall>j<2. isRouteUnsafe [zone_origin, zone_east] (?rs ! j)"
    using route_origin_unsafe_api route_east_unsafe_api by (simp add: less_Suc_eq numeral_2_eq_2)
  then have "\<exists>i<length ?rs. answer [route_far] = (answer ?rs)\<lparr>routes := Some [?rs ! i]\<rparr> \<and>
      \<not> isRouteUnsafe [zone_origin, zone_east] (?rs ! i) \<and>
      (\<forall>j<i. isRouteUnsafe [zone_origin, zone_east] (?rs ! j))"
    using route_far_safe_api by (intro exI [of _ 2]) (simp add: answer_def)
  then show ?thesis
    using route_origin_unsafe_api route_east_unsafe_api route_far_safe_api
      selector_first_safe [of "[zone_origin, zone_east]" "answer ?rs" ?rs "answer [route_far]"]
    by blast
qed

text \<open>
  Claim C4. When every candidate is UNSAFE the selector answers
  \<^verbatim>\<open>no_safe_alternatives_found\<close>, a value of the response type.
\<close>

theorem selector_no_safe_alternative:
  "\<forall>r \<in> set rs. isRouteUnsafe zs r \<Longrightarrow> selectSafe zs data rs = No_safe_alternatives_found"
  by (auto simp add: selectSafe_def safeRoute_def find_Some_iff split: option.splits)

theorem selector_no_safe_alternative_witness:
  "isRouteUnsafe [zone_origin, zone_east] route_origin \<and>
   isRouteUnsafe [zone_origin, zone_east] route_east \<and>
   selectSafe [zone_origin, zone_east] (answer [route_origin, route_east])
       [route_origin, route_east] = No_safe_alternatives_found"
proof -
  have "\<forall>r \<in> set [route_origin, route_east]. isRouteUnsafe [zone_origin, zone_east] r"
    using route_origin_unsafe_api route_east_unsafe_api by simp
  then show ?thesis
    using route_origin_unsafe_api route_east_unsafe_api
      selector_no_safe_alternative [of "[route_origin, route_east]" "[zone_origin, zone_east]"
        "answer [route_origin, route_east]"]
    by blast
qed

section \<open>What the verdict reports\<close>

text \<open>
  Claim C7, as written: an UNSAFE verdict includes the first matching point/zone
  pair. It does not. Against the two example zones, the route at the first centre and
  the route at the second centre get the same verdict, the boolean true, although
  their first matching pairs differ in the point and in the zone.
\<close>

theorem verdict_without_pair_counterexample:
  "isRouteUnsafe [zone_origin, zone_east] route_origin = True \<and>
   isRouteUnsafe [zone_origin, zone_east] route_east = True \<and>
   spec_first_violation inside_api [zone_origin, zone_east] (coordinates (geometry route_origin)) =
     Some ((0, 0), zone_origin) \<and>
   spec_first_violation inside_api [zone_origin, zone_east] (coordinates (geometry route_east)) =
     Some ((1, 0), zone_east) \<and>
   zone_origin \<noteq> zone_east"
  using route_origin_unsafe_api route_east_unsafe_api
  by (simp add: example_data inside_api_def haversineDistance_self haversineDistance_equator_far)

text \<open>
  Claim C7, amended. Whenever a classifier answers UNSAFE, a first matching point/zone
  pair under the traversal order exists: the first point of the polyline that some
  zone contains, with the first zone of the list that contains it; no earlier point is
  in any zone. The verdict itself is the boolean true alone and carries neither the
  zone nor the point.
\<close>

theorem unsafe_verdict_first_violation:
  "(isRouteUnsafe zs r \<longrightarrow>
      (\<exists>p z pre post zpre zpost.
         spec_first_violation inside_api zs (coordinates (geometry r)) = Some (p, z) \<and>
         coordinates (geometry r) = pre @ p # post \<and> zs = zpre @ z # zpost \<and>
         inside_api p z \<and>
         (\<forall>q \<in> set pre. \<forall>z' \<in> set zs. \<not> inside_api q z') \<and>
         (\<forall>z' \<in> set zpre. \<not> inside_api p z'))) \<and>
   (routeUnsafe ws r \<longrightarrow>
      (\<exists>p w pre post wpre wpost.
         spec_first_violation inside_core ws (coordinates (geometry r)) = Some (p, w) \<and>
         coordinates (geometry r) = pre @ p # post \<and> ws = wpre @ w # wpost \<and>
         inside_core p w \<and>
         (\<forall>q \<in> set pre. \<forall>w' \<in> set ws. \<not> inside_core q w') \<and>
         (\<forall>w' \<in> set wpre. \<not> inside_core p w')))"
  using spec_first_violation_Some [of "coordinates (geometry r)" zs inside_api]
    spec_first_violation_Some [of "coordinates (geometry r)" ws inside_core]
  unfolding isRouteUnsafe_inside routeUnsafe_inside by blast

theorem unsafe_verdict_first_violation_witness:
  "isRouteUnsafe [zone_origin, zone_east] route_east \<and>
   spec_first_violation inside_api [zone_origin, zone_east] (coordinates (geometry route_east)) \<noteq> None \<and>
   routeUnsafe [czone_origin, czone_east] route_east \<and>
   spec_first_violation inside_core [czone_origin, czone_east] (coordinates (geometry route_east)) \<noteq> None"
  using route_east_unsafe_api route_east_unsafe_core
    unsafe_verdict_first_violation [of "[zone_origin, zone_east]" route_east "[czone_origin, czone_east]"]
  by force

section \<open>Malformed input\<close>



section \<open>The two distance implementations\<close>

text \<open>
  Claim C9, as written: the haversine and the law-of-cosines implementations diverge
  by less than 0.1 percent at regional scales. They do not. For two points on the
  equator one degree of longitude apart (about 111 km) the results are
  \<open>6371000 \<pi> / 180\<close> and \<open>6378137 \<pi> / 180\<close>, and their difference is more than 0.1
  percent of either.
\<close>

theorem distance_divergence_counterexample:
  "haversineDistance 0 0 0 1 = 6371000 * (pi / 180) \<and>
   distance 0 0 0 1 = 6378137 * (pi / 180) \<and>
   \<not> \<bar>distance 0 0 0 1 - haversineDistance 0 0 0 1\<bar> < 0.001 * haversineDistance 0 0 0 1 \<and>
   \<not> \<bar>distance 0 0 0 1 - haversineDistance 0 0 0 1\<bar> < 0.001 * distance 0 0 0 1"
  by (simp add: haversineDistance_equator distance_equator)

text \<open>
  Claim C9, amended. For every pair of GeoPoints at regional scales, read as a
  haversine distance between 1 km and 1000 km, the results of the two implementations
  diverge by less than 0.12 percent of either result.
\<close>

theorem distance_formulas_regional:
  assumes "spec_GeoPoint la1 lo1" and "spec_GeoPoint la2 lo2"
    and "1000 \<le> haversineDistance la1 lo1 la2 lo2"
    and "haversineDistance la1 lo1 la2 lo2 \<le> 1000000"
  shows "\<bar>distance la1 lo1 la2 lo2 - haversineDistance la1 lo1 la2 lo2\<bar> <
           0.0012 * haversineDistance la1 lo1 la2 lo2 \<and>
         \<bar>distance la1 lo1 la2 lo2 - haversineDistance la1 lo1 la2 lo2\<bar> <
           0.0012 * distance la1 lo1 la2 lo2"
proof -
  let ?d = "distance la1 lo1 la2 lo2" and ?h = "haversineDistance la1 lo1 la2 lo2"
  have r: "?d * 6371000 = ?h * 6378137" by (rule haversine_distance_ratio)
  have h0: "0 < ?h" using assms(3) by simp
  have d: "?d = ?h * 6378137 / 6371000" using r by simp
  have e: "\<bar>?d - ?h\<bar> = 7137 * ?h / 6371000" using h0 unfolding d by simp
  have a: "\<bar>?d - ?h\<bar> < 0.0012 * ?h" using h0 unfolding e by simp
  have b: "\<bar>?d - ?h\<bar> < 0.0012 * ?d" using h0 unfolding e unfolding d by simp
  show ?thesis using a b by blast
qed

theorem distance_formulas_regional_witness:
  "spec_GeoPoint 0 0 \<and> spec_GeoPoint 0 1 \<and>
   1000 \<le> haversineDistance 0 0 0 1 \<and> haversineDistance 0 0 0 1 \<le> 1000000 \<and>
   \<bar>distance 0 0 0 1 - haversineDistance 0 0 0 1\<bar> < 0.0012 * haversineDistance 0 0 0 1 \<and>
   \<bar>distance 0 0 0 1 - haversineDistance 0 0 0 1\<bar> < 0.0012 * distance 0 0 0 1"
proof -
  have g: "spec_GeoPoint 0 0" "spec_GeoPoint 0 1"
    by (simp_all add: spec_GeoPoint_def)
  have h: "haversineDistance 0 0 0 1 = 6371000 * (pi / 180)"
    by (simp add: haversineDistance_equator)
  have lo: "1000 \<le> haversineDistance 0 0 0 1"
    unfolding h using pi_ge_two by simp
  have hi: "haversineDistance 0 0 0 1 \<le> 1000000"
    unfolding h using pi_less_4 by simp
  show ?thesis
    using g lo hi distance_formulas_regional [OF g lo hi] by blast
qed

end
